theory Spec2Isabelle
  imports Main
begin

section \<open>Data model of \<open>nodes/Discord/bot/helpers.ts\<close>\<close>

text \<open>
  The helpers run on the JavaScript event loop. Each exported function is modelled as
  the synchronous part it executes when called, followed by one handler per event it
  has subscribed to (an IPC message, a timer). Everything a handler does to the outside
  world is recorded, in order, in a list of effects; a promise is a value that is
  settled at most once.
\<close>

subsection \<open>Promises\<close>

datatype 'a promise = Pending | Resolved 'a | Rejected string

text \<open>\<open>resolve\<close> and \<open>reject\<close> of a JavaScript promise: the first settlement wins.\<close>

definition resolve :: "'a \<Rightarrow> 'a promise \<Rightarrow> 'a promise" where
  "resolve v p = (case p of Pending \<Rightarrow> Resolved v | _ \<Rightarrow> p)"

definition reject :: "string \<Rightarrow> 'a promise \<Rightarrow> 'a promise" where
  "reject r p = (case p of Pending \<Rightarrow> Rejected r | _ \<Rightarrow> p)"

subsection \<open>Records of the source\<close>

text \<open>
  \<open>ICredentials\<close>. The interface declares three strings; at run time a field may be
  \<open>undefined\<close>, which is \<open>None\<close> here. JavaScript treats \<open>undefined\<close> and the empty
  string as false.
\<close>

record ICredentials =
  clientId :: "string option"
  token :: "string option"
  apiKey :: "string option"

definition truthy :: "string option \<Rightarrow> bool" where
  "truthy v = (case v of None \<Rightarrow> False | Some s \<Rightarrow> s \<noteq> [])"

record IRole =
  name :: string
  role_id :: string

record IExecutionData =
  executionId :: string
  placeholderId :: string
  channelId :: string
  ex_apiKey :: string
  userId :: "string option"

text \<open>The fields of a discord.js \<open>Message\<close> that the helpers read.\<close>

record Message =
  message_id :: string
  content :: string
  msg_channelId :: string
  author_id :: string

text \<open>
  A channel of the client's cache, and the cache itself
  (\<open>client.channels.cache\<close>, a map from channel id to channel).
\<close>

record Channel =
  channel_id :: string

type_synonym Client = "string \<rightharpoonup> Channel"

subsection \<open>The process-wide state\<close>

text \<open>
  Modelled from the spec: the module \<open>./state\<close> is imported by the helpers but is not
  among the sources. Its fields are the ones the helpers use, with the types the
  specification's data model gives them. A trigger carries its \<open>active\<close> flag and its
  trigger-specific configuration, which no helper reads and which is kept as text.
\<close>

record Trigger =
  active :: bool
  config :: string

record prompt =
  prompt_value :: "string option"

record process_state =
  webhookHost :: string
  testMode :: bool
  triggers :: "string \<rightharpoonup> Trigger"
  logs :: "string list"
  ready :: bool
  autoLogs :: bool
  autoLogsChannelId :: string
  promptData :: "string \<rightharpoonup> prompt"
  placeholderMatching :: "string \<rightharpoonup> string"

subsection \<open>Effects\<close>

datatype payload =
    PNone
  | PCredentials ICredentials
  | PExecution IExecutionData
  | PTrigger Trigger

record post_body =
  body_content :: string
  body_channelId :: string
  body_placeholderId :: string
  body_userId :: string

text \<open>
  What a helper does to the outside world: \<open>ipc.config.retry = n\<close>,
  \<open>ipc.connectTo\<close>, \<open>ipc.of.bot.emit\<close>, \<open>console.log\<close>, \<open>channel.send\<close>,
  \<open>message.edit\<close> (the flag says whether \<open>components: []\<close> is passed too) and
  \<open>axios.post\<close> (URL, JSON body, headers).
\<close>

datatype effect =
    SetRetry nat
  | ConnectTo string
  | Emit string payload
  | ConsoleLog string
  | ChannelSend string string
  | MessageEdit string string bool
  | HttpPost string post_body "(string \<times> string) list"

section \<open>\<open>addLog\<close>\<close>

text \<open>
  \<open>addLog message client\<close>. The second argument here is the text of
  \<open>new Date().toISOString()\<close> at the call.
\<close>

definition log_line :: "string \<Rightarrow> string \<Rightarrow> string" where
  "log_line now message = now @ '' -  '' @ message"

definition addLog ::
  "string \<Rightarrow> string \<Rightarrow> Client \<Rightarrow> process_state \<Rightarrow> process_state \<times> effect list" where
  "addLog message now client st =
     (let shifted = (if length (logs st) > 99 then tl (logs st) else logs st);
          log = log_line now message;
          st' = st\<lparr>logs := shifted @ [log]\<rparr>;
          mirror =
            (if ready st' \<and> autoLogs st' then
               (case client (autoLogsChannelId st') of
                  None \<Rightarrow> []
                | Some channel \<Rightarrow> [ChannelSend (channel_id channel) (''**'' @ log @ ''**'')])
             else [])
      in (st', ConsoleLog message # mirror))"

text \<open>A sequence of calls of \<open>addLog\<close>, each given as (message, time stamp).\<close>

definition call_line :: "string \<times> string \<Rightarrow> string" where
  "call_line c = log_line (snd c) (fst c)"

fun addLog_calls ::
  "(string \<times> string) list \<Rightarrow> Client \<Rightarrow> process_state \<Rightarrow> process_state" where
  "addLog_calls [] client st = st"
| "addLog_calls ((message, now) # rest) client st =
     addLog_calls rest client (fst (addLog message now client st))"

section \<open>IPC exchanges\<close>

text \<open>
  What the event loop can deliver to a pending exchange: a message of some type on the
  channel, or the expiry of the exchange's timer.
\<close>

datatype 'a event = Message string 'a | TimerFired

text \<open>
  The state of one exchange: its promise, the delay of its timer while the timer is
  armed (\<open>setTimeout\<close> arms it, \<open>clearTimeout\<close> and its expiry disarm it), the message
  type its listener is registered on, and the effects so far.
\<close>

record 'r exchange =
  promise :: "'r promise"
  timer :: "nat option"
  listener :: "string option"
  effects :: "effect list"

text \<open>A message of another type than \<open>ty\<close>: the listener on \<open>ty\<close> does not see it.\<close>

fun other_message :: "string \<Rightarrow> 'a event \<Rightarrow> bool" where
  "other_message ty (Message ty' data) = (ty' \<noteq> ty)"
| "other_message ty TimerFired = False"

subsection \<open>\<open>connection\<close>\<close>

definition connection_start :: "ICredentials option \<Rightarrow> string exchange" where
  "connection_start credentials =
     (case credentials of
        None \<Rightarrow>
          \<lparr>promise = reject ''credentials missing'' Pending, timer = None,
           listener = None, effects = []\<rparr>
      | Some c \<Rightarrow>
          if \<not> truthy (token c) \<or> \<not> truthy (clientId c) then
            \<lparr>promise = reject ''credentials missing'' Pending, timer = None,
             listener = None, effects = []\<rparr>
          else
            \<lparr>promise = Pending, timer = Some 15000, listener = Some ''credentials'',
             effects = [SetRetry 1500, ConnectTo ''bot'', Emit ''credentials'' (PCredentials c)]\<rparr>)"

text \<open>The listener on \<open>'credentials'\<close>.\<close>

definition on_credentials :: "string \<Rightarrow> string exchange \<Rightarrow> string exchange" where
  "on_credentials data x =
     (let x1 = x\<lparr>timer := None\<rparr> in
      if data \<in> set [''error'', ''login'', ''different''] then
        x1\<lparr>promise :=
             reject
               (if data = ''error'' then ''Invalid credentials''
                else ''Already logging in'' @
                     (if data = ''different'' then '' with different credentials'' else []))
               (promise x1)\<rparr>
      else x1\<lparr>promise := resolve data (promise x1)\<rparr>)"

text \<open>The callback of \<open>setTimeout(() => reject('timeout'), 15000)\<close>.\<close>

definition on_timeout :: "'r exchange \<Rightarrow> 'r exchange" where
  "on_timeout x = x\<lparr>timer := None, promise := reject ''timeout'' (promise x)\<rparr>"

fun connection_step :: "string event \<Rightarrow> string exchange \<Rightarrow> string exchange" where
  "connection_step (Message ty data) x =
     (if listener x = Some ty then on_credentials data x else x)"
| "connection_step TimerFired x = (if timer x = None then x else on_timeout x)"

definition connection :: "ICredentials option \<Rightarrow> string event list \<Rightarrow> string exchange" where
  "connection credentials events = fold connection_step events (connection_start credentials)"

subsection \<open>\<open>getRoles\<close>\<close>

definition endMessage :: string where
  "endMessage = '' - Close and reopen this node modal once you have made changes.''"

text \<open>
  The value received on \<open>'list:roles'\<close> is untyped in the source: an array of roles, or
  something else, of which a string stands here (the timer of the request resolves
  with the empty string).
\<close>

datatype roles_data = RolesArray "IRole list" | RolesText string

record INodePropertyOptions =
  opt_name :: string
  opt_value :: string

text \<open>\<open>getRoles\<close> returns either the filtered roles as they came, or one option.\<close>

datatype dropdown_entry = RoleEntry IRole | OptionEntry INodePropertyOptions

definition rolesRequest_start :: "roles_data exchange" where
  "rolesRequest_start =
     \<lparr>promise = Pending, timer = Some 5000, listener = Some ''list:roles'',
      effects = [SetRetry 1500, ConnectTo ''bot'', Emit ''list:roles'' PNone]\<rparr>"

fun rolesRequest_step ::
  "roles_data event \<Rightarrow> roles_data exchange \<Rightarrow> roles_data exchange" where
  "rolesRequest_step (Message ty data) x =
     (if listener x = Some ty then x\<lparr>timer := None, promise := resolve data (promise x)\<rparr>
      else x)"
| "rolesRequest_step TimerFired x =
     (if timer x = None then x
      else x\<lparr>timer := None, promise := resolve (RolesText []) (promise x)\<rparr>)"

definition rolesRequest :: "roles_data event list \<Rightarrow> roles_data exchange" where
  "rolesRequest events = fold rolesRequest_step events rolesRequest_start"

text \<open>The part of \<open>getRoles\<close> after \<open>roles\<close> has been awaited.\<close>

definition roles_options :: "roles_data \<Rightarrow> dropdown_entry list" where
  "roles_options roles =
     (case roles of
        RolesText s \<Rightarrow>
          [OptionEntry \<lparr>opt_name =
              (if s \<noteq> [] then ''Something went wrong'' @ endMessage else ''Unexpected error''),
            opt_value = ''false''\<rparr>]
      | RolesArray rs \<Rightarrow>
          (let filtered = filter (\<lambda>r. name r \<noteq> ''@everyone'') rs in
           if length filtered \<noteq> 0 then map RoleEntry filtered
           else [OptionEntry \<lparr>opt_name =
                   ''Your Discord server has no roles, please add at least one if you want to restrict the trigger to specific users''
                   @ endMessage,
                 opt_value = ''false''\<rparr>]))"

text \<open>
  \<open>await p.catch((e) => e)\<close>: the value of the promise, or its rejection reason taken as
  a value; \<open>None\<close> while the promise is pending.
\<close>

definition await_catch :: "(string \<Rightarrow> 'a) \<Rightarrow> 'a promise \<Rightarrow> 'a option" where
  "await_catch as_value p =
     (case p of Pending \<Rightarrow> None | Resolved v \<Rightarrow> Some v | Rejected e \<Rightarrow> Some (as_value e))"

text \<open>
  \<open>getRoles\<close>, given the awaited credentials, the events of the credentials exchange and
  the events of the roles exchange. \<open>None\<close>: an awaited promise is still pending when
  the events end.
\<close>

definition getRoles ::
  "ICredentials option \<Rightarrow> string event list \<Rightarrow> roles_data event list \<Rightarrow>
   dropdown_entry list option" where
  "getRoles credentials cred_events roles_events =
     (case await_catch (\<lambda>e. e) (promise (connection credentials cred_events)) of
        None \<Rightarrow> None
      | Some res \<Rightarrow>
          if res \<notin> set [''ready'', ''already''] then
            Some [OptionEntry \<lparr>opt_name = res @ endMessage, opt_value = ''false''\<rparr>]
          else
            (case await_catch RolesText (promise (rolesRequest roles_events)) of
               None \<Rightarrow> None
             | Some roles \<Rightarrow> Some (roles_options roles)))"

subsection \<open>\<open>execution\<close>\<close>

definition execution_start ::
  "string \<Rightarrow> string \<Rightarrow> string \<Rightarrow> string \<Rightarrow> string option \<Rightarrow> bool exchange" where
  "execution_start executionId' placeholderId' channelId' apiKey' userId' =
     \<lparr>promise = Pending, timer = Some 15000, listener = Some ''execution'',
      effects =
        [ConnectTo ''bot'',
         Emit ''execution''
           (PExecution \<lparr>executionId = executionId', placeholderId = placeholderId',
              channelId = channelId', ex_apiKey = apiKey', userId = userId'\<rparr>)]\<rparr>"

fun execution_step :: "'a event \<Rightarrow> bool exchange \<Rightarrow> bool exchange" where
  "execution_step (Message ty data) x =
     (if listener x = Some ty then x\<lparr>timer := None, promise := resolve True (promise x)\<rparr>
      else x)"
| "execution_step TimerFired x = (if timer x = None then x else on_timeout x)"

definition execution ::
  "string \<Rightarrow> string \<Rightarrow> string \<Rightarrow> string \<Rightarrow> string option \<Rightarrow> 'a event list \<Rightarrow>
   bool exchange" where
  "execution executionId' placeholderId' channelId' apiKey' userId' events =
     fold execution_step events
       (execution_start executionId' placeholderId' channelId' apiKey' userId')"

section \<open>\<open>triggerWorkflow\<close>\<close>

text \<open>How \<open>axios.post\<close> settles: with a response object, or rejected.\<close>

datatype http_outcome = Responded | Failed

definition webhook_url :: "process_state \<Rightarrow> string \<Rightarrow> string" where
  "webhook_url st webhookId =
     webhookHost st @ ''/webhook'' @ (if testMode st then ''-test'' else []) @ ''/'' @
     webhookId @ ''/webhook''"

definition trigger_payload :: "Trigger option \<Rightarrow> payload" where
  "trigger_payload t = (case t of None \<Rightarrow> PNone | Some t' \<Rightarrow> PTrigger t')"

text \<open>The request \<open>axios.post(url, body, { headers })\<close> of \<open>triggerWorkflow\<close>.\<close>

definition webhook_post :: "process_state \<Rightarrow> string \<Rightarrow> Message \<Rightarrow> string \<Rightarrow> effect" where
  "webhook_post st webhookId message placeholderId' =
     HttpPost (webhook_url st webhookId)
       \<lparr>body_content = content message, body_channelId = msg_channelId message,
        body_placeholderId = placeholderId', body_userId = author_id message\<rparr>
       [(''accept'', ''application/json'')]"

text \<open>
  The result is the state after the call, the effects, and the value the promise
  resolves with. The handler passed to \<open>catch\<close> returns nothing, so \<open>res\<close> is undefined
  after a failed request and a response object otherwise.
\<close>

definition triggerWorkflow ::
  "string \<Rightarrow> Message \<Rightarrow> string \<Rightarrow> http_outcome \<Rightarrow> process_state \<Rightarrow>
   process_state \<times> effect list \<times> bool" where
  "triggerWorkflow webhookId message placeholderId' outcome st =
     (let post = webhook_post st webhookId message placeholderId'
      in case outcome of
           Responded \<Rightarrow> (st, [post], True)
         | Failed \<Rightarrow>
             (case triggers st webhookId of
                None \<Rightarrow> (st, [post], False)
              | Some t \<Rightarrow>
                  if \<not> testMode st then
                    (let st' = st\<lparr>triggers := (triggers st)(webhookId \<mapsto> t\<lparr>active := False\<rparr>)\<rparr>
                     in (st',
                         [post, ConnectTo ''bot'',
                          Emit ''trigger'' (trigger_payload (triggers st' webhookId))],
                         False))
                  else (st, [post], False)))"

section \<open>Polling loops\<close>

subsection \<open>\<open>pollingPromptData\<close>\<close>

text \<open>Decimal text of a number, as a template literal prints an integer.\<close>

fun digits_of :: "nat \<Rightarrow> string" where
  "digits_of n =
     (if n < 10 then [''0123456789'' ! n]
      else digits_of (n div 10) @ [''0123456789'' ! (n mod 10)])"

declare digits_of.simps [simp del]

definition string_of_int :: "int \<Rightarrow> string" where
  "string_of_int k = (if k < 0 then ''-'' @ digits_of (nat (- k)) else digits_of (nat k))"

text \<open>\<open>state.promptData[message.id]?.value\<close>, read as a condition.\<close>

definition prompt_answered :: "process_state \<Rightarrow> string \<Rightarrow> bool" where
  "prompt_answered st mid =
     (case promptData st mid of None \<Rightarrow> False | Some p \<Rightarrow> truthy (prompt_value p))"

text \<open>
  The loop's variables: the counter \<open>i\<close>, the promise, the delay of the timer that will
  run \<open>waiting\<close> again (if one is armed), and the effects so far.
\<close>

record polling =
  poll_i :: int
  poll_promise :: "bool promise"
  poll_timer :: "nat option"
  poll_effects :: "effect list"

text \<open>
  One run of \<open>waiting\<close> in \<open>pollingPromptData\<close>, from a state \<open>st\<close> of the process at
  that moment. The state is read before the first \<open>await\<close> only.
\<close>

definition pollingPromptData_waiting ::
  "Message \<Rightarrow> string \<Rightarrow> int \<Rightarrow> Client \<Rightarrow> process_state \<Rightarrow> polling \<Rightarrow> polling" where
  "pollingPromptData_waiting message content' seconds client st p =
     (if prompt_answered st (message_id message) \<or> (seconds \<noteq> 0 \<and> poll_i p > seconds) then
        p\<lparr>poll_effects :=
             poll_effects p @
             (if \<not> prompt_answered st (message_id message) then
                MessageEdit (message_id message) content' True #
                (case client (msg_channelId message) of
                   None \<Rightarrow> []
                 | Some channel \<Rightarrow> [ChannelSend (channel_id channel) ''Timeout reached''])
              else []),
           poll_promise := resolve True (poll_promise p),
           poll_timer := None\<rparr>
      else
        p\<lparr>poll_effects :=
             poll_effects p @
             (if seconds \<noteq> 0 \<and> \<not> prompt_answered st (message_id message) then
                [MessageEdit (message_id message)
                   (content' @ '' ('' @ string_of_int (seconds - poll_i p) @ ''s)'') False]
              else []),
           poll_i := poll_i p + 1,
           poll_timer := Some 1000\<rparr>)"

text \<open>
  The timer runs \<open>waiting\<close> once per expiry, each time in the state of the process at
  that moment; once no timer is armed nothing runs any more.
\<close>

fun polling_ticks ::
  "Message \<Rightarrow> string \<Rightarrow> int \<Rightarrow> Client \<Rightarrow> process_state list \<Rightarrow> polling \<Rightarrow> polling" where
  "polling_ticks message content' seconds client [] p = p"
| "polling_ticks message content' seconds client (st # sts) p =
     (if poll_timer p = None then p
      else polling_ticks message content' seconds client sts
             (pollingPromptData_waiting message content' seconds client st p))"

text \<open>
  \<open>pollingPromptData\<close>: \<open>waiting\<close> runs at once in the state \<open>st0\<close> of the call, then at
  each expiry of the timer, in the states \<open>sts\<close>.
\<close>

definition pollingPromptData ::
  "Message \<Rightarrow> string \<Rightarrow> int \<Rightarrow> Client \<Rightarrow> process_state \<Rightarrow> process_state list \<Rightarrow>
   polling" where
  "pollingPromptData message content' seconds client st0 sts =
     polling_ticks message content' seconds client sts
       (pollingPromptData_waiting message content' seconds client st0
          \<lparr>poll_i = 1, poll_promise = Pending, poll_timer = None, poll_effects = []\<rparr>)"

text \<open>The loop's variables when the timer is armed for its first run.\<close>

definition polling_init :: polling where
  "polling_init = \<lparr>poll_i = 1, poll_promise = Pending, poll_timer = Some 1000, poll_effects = []\<rparr>"

subsection \<open>\<open>placeholderLoading\<close>\<close>

record loading =
  load_i :: nat
  load_timer :: "nat option"
  load_effects :: "effect list"

definition dots :: "nat \<Rightarrow> string" where
  "dots n = replicate n (CHR ''.'')"

text \<open>One run of \<open>waiting\<close> in \<open>placeholderLoading\<close>.\<close>

definition placeholderLoading_waiting ::
  "Message \<Rightarrow> string \<Rightarrow> string \<Rightarrow> process_state \<Rightarrow> loading \<Rightarrow> loading" where
  "placeholderLoading_waiting placeholder placeholderMatchingId txt st l =
     (let i1 = load_i l + 1;
          i2 = (if i1 > 3 then 0 else i1);
          content' = txt @ dots i2
      in if \<not> truthy (placeholderMatching st placeholderMatchingId) then
           l\<lparr>load_i := i2, load_timer := None,
             load_effects := load_effects l @ [MessageEdit (message_id placeholder) txt False]\<rparr>
         else
           l\<lparr>load_i := i2, load_timer := Some 800,
             load_effects :=
               load_effects l @ [MessageEdit (message_id placeholder) content' False]\<rparr>)"

text \<open>The callback of the 800 ms timer.\<close>

definition placeholderLoading_timer ::
  "Message \<Rightarrow> string \<Rightarrow> string \<Rightarrow> process_state \<Rightarrow> loading \<Rightarrow> loading" where
  "placeholderLoading_timer placeholder placeholderMatchingId txt st l =
     (if truthy (placeholderMatching st placeholderMatchingId) then
        placeholderLoading_waiting placeholder placeholderMatchingId txt st l
      else
        l\<lparr>load_timer := None,
          load_effects := load_effects l @ [MessageEdit (message_id placeholder) txt False]\<rparr>)"

fun loading_ticks ::
  "Message \<Rightarrow> string \<Rightarrow> string \<Rightarrow> process_state list \<Rightarrow> loading \<Rightarrow> loading" where
  "loading_ticks placeholder placeholderMatchingId txt [] l = l"
| "loading_ticks placeholder placeholderMatchingId txt (st # sts) l =
     (if load_timer l = None then l
      else loading_ticks placeholder placeholderMatchingId txt sts
             (placeholderLoading_timer placeholder placeholderMatchingId txt st l))"

text \<open>
  The synchronous part of \<open>placeholderLoading\<close>: it stores the placeholder's id in
  \<open>state.placeholderMatching\<close> and runs \<open>waiting\<close> once.
\<close>

definition placeholderLoading_start ::
  "Message \<Rightarrow> string \<Rightarrow> string \<Rightarrow> process_state \<Rightarrow> process_state \<times> loading" where
  "placeholderLoading_start placeholder placeholderMatchingId txt st =
     (let st' = st\<lparr>placeholderMatching :=
                    (placeholderMatching st)(placeholderMatchingId \<mapsto> message_id placeholder)\<rparr>
      in (st',
          placeholderLoading_waiting placeholder placeholderMatchingId txt st'
            \<lparr>load_i = 0, load_timer = None, load_effects = []\<rparr>))"

text \<open>
  \<open>placeholderLoading\<close> from the state \<open>st\<close> of the call, followed by the expiries of its
  timer in the states \<open>sts\<close>.
\<close>

definition placeholderLoading ::
  "Message \<Rightarrow> string \<Rightarrow> string \<Rightarrow> process_state \<Rightarrow> process_state list \<Rightarrow> loading" where
  "placeholderLoading placeholder placeholderMatchingId txt st sts =
     loading_ticks placeholder placeholderMatchingId txt sts
       (snd (placeholderLoading_start placeholder placeholderMatchingId txt st))"

text \<open>
  The edits of \<open>n\<close> successive runs of \<open>waiting\<close> that find the entry present, from the
  counter value \<open>i\<close>.
\<close>

definition dot_edits :: "Message \<Rightarrow> string \<Rightarrow> nat \<Rightarrow> nat \<Rightarrow> effect list" where
  "dot_edits pl txt i n =
     map (\<lambda>k. MessageEdit (message_id pl) (txt @ dots ((i + k) mod 4)) False) [1 ..< Suc n]"

section \<open>Concrete inputs\<close>

definition example_state :: "process_state" where
  "example_state =
     \<lparr>webhookHost = ''http://localhost:5678'', testMode = False,
      triggers = [''hook1'' \<mapsto> \<lparr>active = True, config = ''cfg''\<rparr>],
      logs = [], ready = True, autoLogs = True, autoLogsChannelId = ''c9'',
      promptData = [''m1'' \<mapsto> \<lparr>prompt_value = None\<rparr>],
      placeholderMatching = Map.empty\<rparr>"

definition example_client :: Client where
  "example_client = [''c1'' \<mapsto> \<lparr>channel_id = ''c1''\<rparr>, ''c9'' \<mapsto> \<lparr>channel_id = ''c9''\<rparr>]"

definition example_message :: Message where
  "example_message =
     \<lparr>message_id = ''m1'', content = ''hello'', msg_channelId = ''c1'', author_id = ''u1''\<rparr>"

definition example_calls :: "(string \<times> string) list" where
  "example_calls = (''first'', ''t0'') # replicate 100 (''later'', ''t1'')"

definition example_credentials :: ICredentials where
  "example_credentials = \<lparr>clientId = Some ''42'', token = Some ''secret'', apiKey = Some ''k''\<rparr>"

definition no_token :: ICredentials where
  "no_token = \<lparr>clientId = Some ''42'', token = None, apiKey = Some ''k''\<rparr>"

definition everyone :: IRole where
  "everyone = \<lparr>name = ''@everyone'', role_id = ''1''\<rparr>"

definition admin :: IRole where
  "admin = \<lparr>name = ''admin'', role_id = ''2''\<rparr>"

definition test_state :: process_state where
  "test_state = example_state\<lparr>testMode := True\<rparr>"

definition answered_state :: process_state where
  "answered_state = example_state\<lparr>promptData := [''m1'' \<mapsto> \<lparr>prompt_value = Some ''yes''\<rparr>]\<rparr>"

definition loading_state :: process_state where
  "loading_state = example_state\<lparr>placeholderMatching := [''p1'' \<mapsto> ''m1'']\<rparr>"

section \<open>Properties\<close>

subsection \<open>The log buffer\<close>

lemma logs_addLog:
  "logs (fst (addLog message now client st)) =
     (if length (logs st) > 99 then tl (logs st) else logs st) @ [log_line now message]"
  by (simp add: addLog_def Let_def)

lemma logs_addLog_calls:
  "length (logs st) \<le> 100 \<Longrightarrow>
   logs (addLog_calls calls client st) =
     drop (length (logs st) + length calls - 100) (logs st @ map call_line calls)"
proof (induction calls arbitrary: st)
  case Nil
  then show ?case by simp
next
  case (Cons c calls)
  obtain message now where c: "c = (message, now)" by (cases c)
  let ?st = "fst (addLog message now client st)"
  have len: "length (logs ?st) = (if length (logs st) = 100 then 100 else Suc (length (logs st)))"
    using Cons.prems by (simp add: logs_addLog)
  then have "length (logs ?st) \<le> 100" using Cons.prems by simp
  from Cons.IH [OF this] show ?case
    using Cons.prems len
    by (cases "logs st") (auto simp: c logs_addLog drop_Cons' call_line_def)
qed

text \<open>
  C3. From a log of at most 100 lines, \<open>addLog\<close> leaves at most 100 lines: the new line
  is appended at the end, and the first line is dropped exactly when the log already
  holds 100. After 101 calls from an empty log the log holds 100 lines, those of the
  calls 2 to 101 in order: the line of the first call is the one evicted.
\<close>

theorem addLog_bounded_fifo:
  assumes "length (logs st) \<le> 100" and "logs st0 = []" and "length calls = 101"
  shows "length (logs (fst (addLog message now client st))) \<le> 100
       \<and> logs (fst (addLog message now client st)) =
           (if length (logs st) = 100 then tl (logs st) else logs st) @ [log_line now message]
       \<and> length (logs (addLog_calls calls client st0)) = 100
       \<and> logs (addLog_calls calls client st0) = map call_line (tl calls)"
proof -
  have one: "logs (fst (addLog message now client st)) =
      (if length (logs st) = 100 then tl (logs st) else logs st) @ [log_line now message]"
    using assms(1) by (simp add: logs_addLog)
  have many: "logs (addLog_calls calls client st0) = map call_line (tl calls)"
    using assms(2,3) by (simp add: logs_addLog_calls drop_Suc map_tl)
  show ?thesis using assms one many by simp
qed

theorem addLog_bounded_fifo_witness:
  "length (logs example_state) \<le> 100 \<and> logs example_state = [] \<and> length example_calls = 101
   \<and> length (logs (fst (addLog ''x'' ''t'' example_client example_state))) \<le> 100
   \<and> logs (fst (addLog ''x'' ''t'' example_client example_state)) = [''t -  x'']
   \<and> length (logs (addLog_calls example_calls example_client example_state)) = 100
   \<and> logs (addLog_calls example_calls example_client example_state) =
       replicate 100 ''t1 -  later''"
proof -
  have h: "length (logs example_state) \<le> 100" "logs example_state = []"
      "length example_calls = 101"
    by (simp_all add: example_state_def example_calls_def)
  have t: "map call_line (tl example_calls) = replicate 100 ''t1 -  later''"
    by (simp add: example_calls_def call_line_def log_line_def)
  show ?thesis
    using h addLog_bounded_fifo [OF h, of "''x''" "''t''" example_client]
    by (simp add: t log_line_def)
qed

subsection \<open>Exchanges over the channel\<close>

lemma resolve_simps [simp]:
  "resolve v Pending = Resolved v" "resolve v (Resolved w) = Resolved w"
  "resolve v (Rejected r) = Rejected r"
  by (simp_all add: resolve_def)

lemma reject_simps [simp]:
  "reject r Pending = Rejected r" "reject r (Resolved w) = Resolved w"
  "reject r (Rejected r') = Rejected r'"
  by (simp_all add: reject_def)

lemma settled_resolve: "p \<noteq> Pending \<Longrightarrow> resolve v p = p"
  by (cases p) simp_all

lemma settled_reject: "p \<noteq> Pending \<Longrightarrow> reject r p = p"
  by (cases p) simp_all

lemma connection_step_other:
  "other_message ty e \<Longrightarrow> listener x = Some ty \<Longrightarrow> connection_step e x = x"
  by (cases e) auto

lemma connection_fold_other:
  "list_all (other_message ty) es \<Longrightarrow> listener x = Some ty \<Longrightarrow> fold connection_step es x = x"
proof (induction es)
  case Nil
  show ?case by simp
next
  case (Cons e es)
  then have "connection_step e x = x" by (simp add: connection_step_other [of ty])
  with Cons show ?case by simp
qed

lemma connection_step_settled:
  "promise x \<noteq> Pending \<Longrightarrow> promise (connection_step e x) = promise x"
  by (cases e) (auto simp: on_credentials_def on_timeout_def Let_def settled_resolve settled_reject)

lemma connection_fold_settled:
  "promise x \<noteq> Pending \<Longrightarrow> promise (fold connection_step es x) = promise x"
  by (induction es arbitrary: x) (simp_all add: connection_step_settled)

lemma connection_fold_response:
  assumes "promise x = Pending" and "listener x = Some ''credentials''"
    and "list_all (other_message ''credentials'') before"
  shows "promise (fold connection_step (before @ Message ''credentials'' data # after) x) =
      (if data = ''error'' then Rejected ''Invalid credentials''
       else if data = ''login'' then Rejected ''Already logging in''
       else if data = ''different'' then Rejected ''Already logging in with different credentials''
       else Resolved data)"
proof -
  have before: "fold connection_step before x = x"
    using assms(3,2) by (rule connection_fold_other)
  define y where "y = connection_step (Message ''credentials'' data) x"
  have y: "promise y =
      (if data = ''error'' then Rejected ''Invalid credentials''
       else if data = ''login'' then Rejected ''Already logging in''
       else if data = ''different'' then Rejected ''Already logging in with different credentials''
       else Resolved data)"
    using assms(1,2) by (simp add: y_def on_credentials_def Let_def)
  then have "promise y \<noteq> Pending" by (simp split: if_splits)
  then have "promise (fold connection_step after y) = promise y"
    by (rule connection_fold_settled)
  with y before show ?thesis by (simp add: y_def)
qed

text \<open>
  C1. With credentials present, the first message of type \<open>'credentials'\<close> that arrives
  while the exchange is pending settles the promise of \<open>connection\<close>: rejected with
  \<open>'Invalid credentials'\<close> for \<open>'error'\<close>, with \<open>'Already logging in'\<close> for \<open>'login'\<close>, with
  \<open>'Already logging in with different credentials'\<close> for \<open>'different'\<close>, and resolved
  with the response itself for every other string. Messages of other types before it,
  and whatever arrives after it, change nothing.
\<close>

theorem connection_classifies_response:
  assumes "truthy (token c)" and "truthy (clientId c)"
    and "list_all (other_message ''credentials'') before"
  shows "promise (connection (Some c) (before @ Message ''credentials'' data # after)) =
      (if data = ''error'' then Rejected ''Invalid credentials''
       else if data = ''login'' then Rejected ''Already logging in''
       else if data = ''different'' then Rejected ''Already logging in with different credentials''
       else Resolved data)"
  unfolding connection_def
  by (rule connection_fold_response) (simp_all add: assms connection_start_def)

theorem connection_classifies_response_witness:
  "truthy (token example_credentials) \<and> truthy (clientId example_credentials)
   \<and> list_all (other_message ''credentials'') [Message ''list:roles'' ''x'']
   \<and> promise (connection (Some example_credentials)
        ([Message ''list:roles'' ''x''] @ Message ''credentials'' ''error'' # [TimerFired]))
       = Rejected ''Invalid credentials''
   \<and> promise (connection (Some example_credentials)
        ([Message ''list:roles'' ''x''] @ Message ''credentials'' ''login'' # [TimerFired]))
       = Rejected ''Already logging in''
   \<and> promise (connection (Some example_credentials)
        ([Message ''list:roles'' ''x''] @ Message ''credentials'' ''different'' # [TimerFired]))
       = Rejected ''Already logging in with different credentials''
   \<and> promise (connection (Some example_credentials)
        ([Message ''list:roles'' ''x''] @ Message ''credentials'' ''ready'' # [TimerFired]))
       = Resolved ''ready''"
proof -
  have h: "truthy (token example_credentials)" "truthy (clientId example_credentials)"
      "list_all (other_message ''credentials'') [Message ''list:roles'' ''x'']"
    by (simp_all add: example_credentials_def truthy_def)
  show ?thesis
    using h
      connection_classifies_response [OF h, of "''error''" "[TimerFired]"]
      connection_classifies_response [OF h, of "''login''" "[TimerFired]"]
      connection_classifies_response [OF h, of "''different''" "[TimerFired]"]
      connection_classifies_response [OF h, of "''ready''" "[TimerFired]"]
    by simp
qed

lemma connection_step_idle:
  "timer x = None \<Longrightarrow> listener x = None \<Longrightarrow> connection_step e x = x"
  by (cases e) auto

lemma connection_fold_idle:
  "timer x = None \<Longrightarrow> listener x = None \<Longrightarrow> fold connection_step es x = x"
  by (induction es) (simp_all add: connection_step_idle)

text \<open>
  C9. When the credentials are absent, or \<open>clientId\<close> or \<open>token\<close> is missing (or empty),
  \<open>connection\<close> rejects with \<open>'credentials missing'\<close> at once: nothing is emitted, no
  connection is made, no timer is armed and no listener is registered, so no later
  event changes the outcome.
\<close>

theorem connection_credentials_missing:
  assumes "credentials = None \<or>
           (\<exists>c. credentials = Some c \<and> (\<not> truthy (clientId c) \<or> \<not> truthy (token c)))"
  shows "connection credentials events =
           \<lparr>promise = Rejected ''credentials missing'', timer = None, listener = None,
            effects = []\<rparr>"
proof -
  have "connection credentials events = connection_start credentials"
    unfolding connection_def
    using assms by (intro connection_fold_idle) (auto simp: connection_start_def)
  then show ?thesis
    using assms by (auto simp: connection_start_def)
qed

theorem connection_credentials_missing_witness:
  "(Some no_token = None \<or>
     (\<exists>c. Some no_token = Some c \<and> (\<not> truthy (clientId c) \<or> \<not> truthy (token c))))
   \<and> (connection (Some no_token) [Message ''credentials'' ''ready'', TimerFired]) =
       \<lparr>promise = Rejected ''credentials missing'', timer = None, listener = None,
        effects = []\<rparr>
   \<and> (connection None []) =
       \<lparr>promise = Rejected ''credentials missing'', timer = None, listener = None,
        effects = []\<rparr>"
proof -
  have h: "Some no_token = None \<or>
     (\<exists>c. Some no_token = Some c \<and> (\<not> truthy (clientId c) \<or> \<not> truthy (token c)))"
    by (simp add: no_token_def truthy_def)
  show ?thesis
    using h connection_credentials_missing [OF h, of "[Message ''credentials'' ''ready'', TimerFired]"]
      connection_credentials_missing [of None "[]"]
    by simp
qed

lemma execution_step_other:
  "other_message ty e \<Longrightarrow> listener x = Some ty \<Longrightarrow> execution_step e x = x"
  by (cases e) auto

lemma execution_fold_other:
  "list_all (other_message ty) es \<Longrightarrow> listener x = Some ty \<Longrightarrow> fold execution_step es x = x"
proof (induction es)
  case Nil
  show ?case by simp
next
  case (Cons e es)
  then have "execution_step e x = x" by (simp add: execution_step_other [of ty])
  with Cons show ?case by simp
qed

lemma execution_step_settled:
  "promise x \<noteq> Pending \<Longrightarrow> promise (execution_step e x) = promise x"
  by (cases e) (auto simp: on_timeout_def settled_resolve settled_reject)

lemma execution_fold_settled:
  "promise x \<noteq> Pending \<Longrightarrow> promise (fold execution_step es x) = promise x"
  by (induction es arbitrary: x) (simp_all add: execution_step_settled)

lemma execution_fold_response:
  assumes "promise x = Pending" and "listener x = Some ''execution''"
    and "list_all (other_message ''execution'') before"
  shows "promise (fold execution_step (before @ Message ''execution'' data # after) x) =
           Resolved True"
proof -
  have before: "fold execution_step before x = x"
    using assms(3,2) by (rule execution_fold_other)
  have "promise (execution_step (Message ''execution'' data) x) = Resolved True"
    using assms(1,2) by simp
  then have "promise (fold execution_step after (execution_step (Message ''execution'' data) x))
      = Resolved True"
    by (simp add: execution_fold_settled)
  with before show ?thesis by simp
qed

lemma execution_fold_timeout:
  assumes "promise x = Pending" and "listener x = Some ''execution''" and "timer x = Some n"
    and "list_all (other_message ''execution'') before"
  shows "promise (fold execution_step (before @ TimerFired # after) x) = Rejected ''timeout''"
proof -
  have before: "fold execution_step before x = x"
    using assms(4,2) by (rule execution_fold_other)
  have "promise (execution_step TimerFired x) = Rejected ''timeout''"
    using assms(1,3) by (simp add: on_timeout_def)
  then have "promise (fold execution_step after (execution_step TimerFired x))
      = Rejected ''timeout''"
    by (simp add: execution_fold_settled)
  with before show ?thesis by simp
qed

text \<open>
  C10. \<open>execution\<close> arms a timer of 15000 ms and stays pending while only messages of
  other types arrive; the first message of type \<open>'execution'\<close> resolves the promise with
  \<open>true\<close>, and the expiry of the timer before any such message rejects it with
  \<open>'timeout'\<close>.
\<close>

theorem execution_resolves_or_times_out:
  assumes "list_all (other_message ''execution'') before"
  shows "promise (execution e p c a u (before @ Message ''execution'' data # after)) = Resolved True
       \<and> promise (execution e p c a u (before @ TimerFired # after)) = Rejected ''timeout''
       \<and> promise (execution e p c a u before) = Pending
       \<and> timer (execution e p c a u before) = Some 15000"
proof -
  have 1: "promise (execution e p c a u (before @ Message ''execution'' data # after)) = Resolved True"
    unfolding execution_def
    by (rule execution_fold_response) (simp_all add: assms execution_start_def)
  have 2: "promise (execution e p c a u (before @ TimerFired # after)) = Rejected ''timeout''"
    unfolding execution_def
    by (rule execution_fold_timeout [where n = 15000]) (simp_all add: assms execution_start_def)
  have 3: "execution e p c a u before = execution_start e p c a u"
    unfolding execution_def
    by (rule execution_fold_other [OF assms]) (simp add: execution_start_def)
  show ?thesis using 1 2 by (simp add: 3 execution_start_def)
qed

theorem execution_resolves_or_times_out_witness:
  "list_all (other_message ''execution'') [Message ''credentials'' ''ready'']
   \<and> promise (execution ''e1'' ''p1'' ''c1'' ''k'' None
        ([Message ''credentials'' ''ready''] @ Message ''execution'' ''ok'' # [TimerFired]))
       = Resolved True
   \<and> promise (execution ''e1'' ''p1'' ''c1'' ''k'' None
        ([Message ''credentials'' ''ready''] @ TimerFired # [Message ''execution'' ''ok'']))
       = Rejected ''timeout''
   \<and> timer (execution ''e1'' ''p1'' ''c1'' ''k'' None [Message ''credentials'' ''ready'']) = Some 15000"
proof -
  have h: "list_all (other_message ''execution'') [Message ''credentials'' ''ready'']"
    by simp
  show ?thesis
    using h
      execution_resolves_or_times_out [OF h,
        of "''e1''" "''p1''" "''c1''" "''k''" None "''ok''" "[TimerFired]"]
      execution_resolves_or_times_out [OF h,
        of "''e1''" "''p1''" "''c1''" "''k''" None "''ok''" "[Message ''execution'' ''ok'']"]
    by simp
qed

subsection \<open>Trigger dispatch\<close>

text \<open>
  C2. When the POST of \<open>triggerWorkflow\<close> fails, a trigger is registered for
  \<open>webhookId\<close> and \<open>testMode\<close> is off, the trigger's \<open>active\<close> flag becomes false in the
  state, a \<open>'trigger'\<close> message carrying the deactivated record is emitted after the
  connection to the bot, and the call resolves \<open>false\<close>. In test mode a failure leaves
  the whole state as it was, emits nothing, and resolves \<open>false\<close> too. A POST that is
  answered resolves \<open>true\<close> and leaves the state as it was.
\<close>

theorem triggerWorkflow_outcomes:
  "(triggers st w = Some t \<and> \<not> testMode st \<longrightarrow>
      triggerWorkflow w m p Failed st =
        (st\<lparr>triggers := (triggers st)(w \<mapsto> t\<lparr>active := False\<rparr>)\<rparr>,
         [webhook_post st w m p, ConnectTo ''bot'',
          Emit ''trigger'' (PTrigger (t\<lparr>active := False\<rparr>))],
         False))
   \<and> (testMode st \<longrightarrow>
        triggerWorkflow w m p Failed st = (st, [webhook_post st w m p], False))
   \<and> triggerWorkflow w m p Responded st = (st, [webhook_post st w m p], True)"
  by (auto simp: triggerWorkflow_def Let_def trigger_payload_def split: option.splits)

theorem triggerWorkflow_outcomes_witness:
  "triggers example_state ''hook1'' = Some \<lparr>active = True, config = ''cfg''\<rparr>
   \<and> \<not> testMode example_state
   \<and> triggers (fst (triggerWorkflow ''hook1'' example_message ''p1'' Failed example_state)) ''hook1''
       = Some \<lparr>active = False, config = ''cfg''\<rparr>
   \<and> snd (triggerWorkflow ''hook1'' example_message ''p1'' Failed example_state) =
       ([HttpPost ''http://localhost:5678/webhook/hook1/webhook''
           \<lparr>body_content = ''hello'', body_channelId = ''c1'', body_placeholderId = ''p1'',
            body_userId = ''u1''\<rparr>
           [(''accept'', ''application/json'')],
         ConnectTo ''bot'',
         Emit ''trigger'' (PTrigger \<lparr>active = False, config = ''cfg''\<rparr>)],
        False)
   \<and> testMode test_state
   \<and> triggerWorkflow ''hook1'' example_message ''p1'' Failed test_state =
       (test_state,
        [HttpPost ''http://localhost:5678/webhook-test/hook1/webhook''
           \<lparr>body_content = ''hello'', body_channelId = ''c1'', body_placeholderId = ''p1'',
            body_userId = ''u1''\<rparr>
           [(''accept'', ''application/json'')]],
        False)
   \<and> snd (snd (triggerWorkflow ''hook1'' example_message ''p1'' Responded example_state))"
proof -
  have h: "triggers example_state ''hook1'' = Some \<lparr>active = True, config = ''cfg''\<rparr>"
      "\<not> testMode example_state" "testMode test_state"
    by (simp_all add: example_state_def test_state_def)
  have post: "webhook_post example_state ''hook1'' example_message ''p1'' =
      HttpPost ''http://localhost:5678/webhook/hook1/webhook''
           \<lparr>body_content = ''hello'', body_channelId = ''c1'', body_placeholderId = ''p1'',
            body_userId = ''u1''\<rparr>
           [(''accept'', ''application/json'')]"
    "webhook_post test_state ''hook1'' example_message ''p1'' =
      HttpPost ''http://localhost:5678/webhook-test/hook1/webhook''
           \<lparr>body_content = ''hello'', body_channelId = ''c1'', body_placeholderId = ''p1'',
            body_userId = ''u1''\<rparr>
           [(''accept'', ''application/json'')]"
    by (simp_all add: webhook_post_def webhook_url_def example_state_def test_state_def
        example_message_def)
  show ?thesis
    using h
      triggerWorkflow_outcomes [of example_state "''hook1''"
        "\<lparr>active = True, config = ''cfg''\<rparr>" example_message "''p1''"]
      triggerWorkflow_outcomes [of test_state "''hook1''"
        "\<lparr>active = True, config = ''cfg''\<rparr>" example_message "''p1''"]
    by (simp add: post)
qed

subsection \<open>Role options\<close>

lemma rolesRequest_step_other:
  "other_message ty e \<Longrightarrow> listener x = Some ty \<Longrightarrow> rolesRequest_step e x = x"
  by (cases e) auto

lemma rolesRequest_fold_other:
  "list_all (other_message ty) es \<Longrightarrow> listener x = Some ty \<Longrightarrow> fold rolesRequest_step es x = x"
proof (induction es)
  case Nil
  show ?case by simp
next
  case (Cons e es)
  then have "rolesRequest_step e x = x" by (simp add: rolesRequest_step_other [of ty])
  with Cons show ?case by simp
qed

lemma rolesRequest_step_settled:
  "promise x \<noteq> Pending \<Longrightarrow> promise (rolesRequest_step e x) = promise x"
  by (cases e) (auto simp: settled_resolve)

lemma rolesRequest_fold_settled:
  "promise x \<noteq> Pending \<Longrightarrow> promise (fold rolesRequest_step es x) = promise x"
  by (induction es arbitrary: x) (simp_all add: rolesRequest_step_settled)

lemma rolesRequest_response:
  assumes "list_all (other_message ''list:roles'') before"
  shows "promise (rolesRequest (before @ Message ''list:roles'' data # after)) = Resolved data"
proof -
  have start: "promise rolesRequest_start = Pending"
      "listener rolesRequest_start = Some ''list:roles''"
    by (simp_all add: rolesRequest_start_def)
  have before: "fold rolesRequest_step before rolesRequest_start = rolesRequest_start"
    using assms start(2) by (rule rolesRequest_fold_other)
  have "promise (rolesRequest_step (Message ''list:roles'' data) rolesRequest_start) =
      Resolved data"
    using start by simp
  then have "promise (fold rolesRequest_step after
      (rolesRequest_step (Message ''list:roles'' data) rolesRequest_start)) = Resolved data"
    by (simp add: rolesRequest_fold_settled)
  with before show ?thesis by (simp add: rolesRequest_def)
qed

text \<open>
  C8. Once \<open>connection\<close> has resolved with \<open>'ready'\<close> or \<open>'already'\<close>, and an array of
  roles is the first message received on \<open>'list:roles'\<close> (before the 5000 ms timer),
  \<open>getRoles\<close> returns the roles whose name is not \<open>'@everyone'\<close>, in their order; if none
  is left it returns the single option that says the server has no roles, with value
  \<open>'false'\<close>.
\<close>

theorem getRoles_filters_everyone:
  assumes "promise (connection credentials cred_events) = Resolved res"
    and "res = ''ready'' \<or> res = ''already''"
    and "list_all (other_message ''list:roles'') before"
  shows "getRoles credentials cred_events (before @ Message ''list:roles'' (RolesArray roles) # after) =
     Some (if filter (\<lambda>r. name r \<noteq> ''@everyone'') roles = []
           then [OptionEntry \<lparr>opt_name =
                   ''Your Discord server has no roles, please add at least one if you want to restrict the trigger to specific users''
                   @ '' - Close and reopen this node modal once you have made changes.'',
                 opt_value = ''false''\<rparr>]
           else map RoleEntry (filter (\<lambda>r. name r \<noteq> ''@everyone'') roles))"
proof -
  have "promise (rolesRequest (before @ Message ''list:roles'' (RolesArray roles) # after)) =
      Resolved (RolesArray roles)"
    using assms(3) by (rule rolesRequest_response)
  then show ?thesis
    using assms(1,2)
    by (auto simp: getRoles_def await_catch_def roles_options_def Let_def endMessage_def)
qed

theorem getRoles_filters_everyone_witness:
  "promise (connection (Some example_credentials) [Message ''credentials'' ''ready''])
     = Resolved ''ready''
   \<and> (''ready'' = ''ready'' \<or> ''ready'' = ''already'')
   \<and> list_all (other_message ''list:roles'') [Message ''credentials'' (RolesText ''ready'')]
   \<and> getRoles (Some example_credentials) [Message ''credentials'' ''ready'']
        ([Message ''credentials'' (RolesText ''ready'')] @
         Message ''list:roles'' (RolesArray [everyone, admin, everyone]) # [TimerFired])
       = Some [RoleEntry admin]
   \<and> getRoles (Some example_credentials) [Message ''credentials'' ''ready'']
        ([Message ''credentials'' (RolesText ''ready'')] @
         Message ''list:roles'' (RolesArray [everyone]) # [TimerFired])
       = Some [OptionEntry \<lparr>opt_name =
            ''Your Discord server has no roles, please add at least one if you want to restrict the trigger to specific users - Close and reopen this node modal once you have made changes.'',
            opt_value = ''false''\<rparr>]"
proof -
  have h: "promise (connection (Some example_credentials) [Message ''credentials'' ''ready''])
       = Resolved ''ready''"
      "''ready'' = ''ready'' \<or> ''ready'' = ''already''"
      "list_all (other_message ''list:roles'') [Message ''credentials'' (RolesText ''ready'')]"
    by (simp_all add: connection_def connection_start_def example_credentials_def truthy_def
        on_credentials_def Let_def)
  show ?thesis
    using h
      getRoles_filters_everyone [OF h, of "[everyone, admin, everyone]" "[TimerFired]"]
      getRoles_filters_everyone [OF h, of "[everyone]" "[TimerFired]"]
    by (simp add: everyone_def admin_def)
qed

subsection \<open>The countdown prompt\<close>

lemma polling_init_sel [simp]:
  "poll_i polling_init = 1" "poll_promise polling_init = Pending"
  "poll_timer polling_init = Some 1000" "poll_effects polling_init = []"
  by (simp_all add: polling_init_def)

lemma polling_ticks_stopped:
  "poll_timer p = None \<Longrightarrow> polling_ticks m c seconds cl sts p = p"
  by (cases sts) simp_all

lemma polling_ticks_append:
  "polling_ticks m c seconds cl (xs @ ys) p =
     polling_ticks m c seconds cl ys (polling_ticks m c seconds cl xs p)"
  by (induction xs arbitrary: p) (simp_all add: polling_ticks_stopped)

lemma waiting_overwrites_timer:
  "pollingPromptData_waiting m c seconds cl st (p\<lparr>poll_timer := t\<rparr>) =
   pollingPromptData_waiting m c seconds cl st p"
  by (simp add: pollingPromptData_waiting_def)

lemma pollingPromptData_as_ticks:
  "pollingPromptData m c seconds cl st0 sts = polling_ticks m c seconds cl (st0 # sts) polling_init"
  by (simp add: pollingPromptData_def polling_init_def pollingPromptData_waiting_def)

lemma waiting_countdown:
  assumes "\<not> prompt_answered st (message_id m)" and "seconds \<noteq> 0" and "poll_i p \<le> seconds"
  shows "pollingPromptData_waiting m c seconds cl st p =
     p\<lparr>poll_effects := poll_effects p @
          [MessageEdit (message_id m) (c @ '' ('' @ string_of_int (seconds - poll_i p) @ ''s)'') False],
       poll_i := poll_i p + 1, poll_timer := Some 1000\<rparr>"
  using assms by (simp add: pollingPromptData_waiting_def)

lemma waiting_idle:
  assumes "\<not> prompt_answered st (message_id m)"
  shows "pollingPromptData_waiting m c 0 cl st p = p\<lparr>poll_i := poll_i p + 1, poll_timer := Some 1000\<rparr>"
  using assms by (simp add: pollingPromptData_waiting_def)

lemma waiting_answered:
  assumes "prompt_answered st (message_id m)"
  shows "pollingPromptData_waiting m c seconds cl st p =
     p\<lparr>poll_promise := resolve True (poll_promise p), poll_timer := None\<rparr>"
  using assms by (simp add: pollingPromptData_waiting_def)

lemma waiting_deadline:
  assumes "\<not> prompt_answered st (message_id m)" and "seconds \<noteq> 0" and "seconds < poll_i p"
  shows "pollingPromptData_waiting m c seconds cl st p =
     p\<lparr>poll_effects := poll_effects p @
          MessageEdit (message_id m) c True #
          (case cl (msg_channelId m) of
             None \<Rightarrow> []
           | Some channel \<Rightarrow> [ChannelSend (channel_id channel) ''Timeout reached'']),
       poll_promise := resolve True (poll_promise p), poll_timer := None\<rparr>"
  using assms by (simp add: pollingPromptData_waiting_def)

lemma polling_ticks_countdown:
  assumes "list_all (\<lambda>st. \<not> prompt_answered st (message_id m)) sts"
    and "seconds \<noteq> 0" and "poll_timer p = Some 1000"
    and "poll_i p + int (length sts) \<le> seconds + 1"
  shows "polling_ticks m c seconds cl sts p =
     p\<lparr>poll_effects := poll_effects p @
          map (\<lambda>k. MessageEdit (message_id m) (c @ '' ('' @ string_of_int (seconds - k) @ ''s)'') False)
            [poll_i p .. poll_i p + int (length sts) - 1],
       poll_i := poll_i p + int (length sts)\<rparr>"
  using assms
proof (induction sts arbitrary: p)
  case Nil
  then show ?case by simp
next
  case (Cons st sts)
  let ?p = "pollingPromptData_waiting m c seconds cl st p"
  have w: "?p = p\<lparr>poll_effects := poll_effects p @
          [MessageEdit (message_id m) (c @ '' ('' @ string_of_int (seconds - poll_i p) @ ''s)'') False],
       poll_i := poll_i p + 1, poll_timer := Some 1000\<rparr>"
    using Cons.prems by (intro waiting_countdown) simp_all
  have ih: "polling_ticks m c seconds cl sts ?p =
     ?p\<lparr>poll_effects := poll_effects ?p @
          map (\<lambda>k. MessageEdit (message_id m) (c @ '' ('' @ string_of_int (seconds - k) @ ''s)'') False)
            [poll_i ?p .. poll_i ?p + int (length sts) - 1],
       poll_i := poll_i ?p + int (length sts)\<rparr>"
    using Cons.prems by (intro Cons.IH) (simp_all add: w)
  have up: "[poll_i p .. poll_i p + int (length sts)] =
      poll_i p # [poll_i p + 1 .. poll_i p + int (length sts)]"
    by (rule upto_rec1) simp
  have same: "p\<lparr>poll_timer := Some 1000\<rparr> = p"
    using Cons.prems(3) by simp
  have "polling_ticks m c seconds cl (st # sts) p = polling_ticks m c seconds cl sts ?p"
    using Cons.prems by simp
  also note ih
  finally show ?case
    by (simp add: w up same add.assoc)
qed

lemma polling_ticks_idle:
  assumes "list_all (\<lambda>st. \<not> prompt_answered st (message_id m)) sts"
    and "poll_timer p = Some 1000"
  shows "polling_ticks m c 0 cl sts p = p\<lparr>poll_i := poll_i p + int (length sts)\<rparr>"
  using assms
proof (induction sts arbitrary: p)
  case Nil
  then show ?case by simp
next
  case (Cons st sts)
  let ?p = "pollingPromptData_waiting m c 0 cl st p"
  have w: "?p = p\<lparr>poll_i := poll_i p + 1, poll_timer := Some 1000\<rparr>"
    using Cons.prems by (intro waiting_idle) simp
  have "polling_ticks m c 0 cl sts ?p = ?p\<lparr>poll_i := poll_i ?p + int (length sts)\<rparr>"
    using Cons.prems by (intro Cons.IH) (simp_all add: w)
  then show ?case
    using Cons.prems(2) by (simp add: w)
qed


lemma pollingPromptData_split:
  assumes "poll_timer (polling_ticks m c seconds cl pre polling_init) = Some 1000"
  shows "pollingPromptData m c seconds cl (hd (pre @ st # rest)) (tl (pre @ st # rest)) =
     polling_ticks m c seconds cl rest
       (pollingPromptData_waiting m c seconds cl st (polling_ticks m c seconds cl pre polling_init))"
proof -
  have "hd (pre @ st # rest) # tl (pre @ st # rest) = pre @ st # rest"
    by simp
  then have "pollingPromptData m c seconds cl (hd (pre @ st # rest)) (tl (pre @ st # rest)) =
      polling_ticks m c seconds cl (pre @ st # rest) polling_init"
    by (simp only: pollingPromptData_as_ticks)
  also have "\<dots> = polling_ticks m c seconds cl (st # rest)
      (polling_ticks m c seconds cl pre polling_init)"
    by (rule polling_ticks_append)
  finally show ?thesis using assms by simp
qed

text \<open>
  C4, as the code has it. Let the states \<open>pre\<close> of the first ticks show no answer, and let
  \<open>st\<close> be the state at the next tick. If \<open>seconds > 0\<close>, \<open>pre\<close> holds \<open>seconds\<close> states and
  \<open>st\<close> shows no answer either, this tick is the deadline: after the countdown edits
  \<open>(seconds - 1)s\<close> down to \<open>0s\<close>, the message is edited to the plain content with its
  components removed, \<open>'Timeout reached'\<close> is sent when the client's cache holds the
  message's channel, and the promise resolves \<open>true\<close>. If instead \<open>st\<close> shows an answer
  (at or before the deadline), the promise resolves \<open>true\<close> and the tick edits nothing and
  sends nothing: the last countdown suffix written stays in the message. In both cases no
  timer remains armed, whatever the later states are.
\<close>

theorem pollingPromptData_last_tick:
  assumes "list_all (\<lambda>st. \<not> prompt_answered st (message_id m)) pre"
  shows "(\<not> prompt_answered st (message_id m) \<and> 0 < seconds \<and> int (length pre) = seconds \<longrightarrow>
           pollingPromptData m c seconds cl (hd (pre @ st # rest)) (tl (pre @ st # rest)) =
             \<lparr>poll_i = seconds + 1, poll_promise = Resolved True, poll_timer = None,
              poll_effects =
                map (\<lambda>k. MessageEdit (message_id m)
                            (c @ '' ('' @ string_of_int (seconds - k) @ ''s)'') False)
                  [1 .. seconds] @
                MessageEdit (message_id m) c True #
                (case cl (msg_channelId m) of
                   None \<Rightarrow> []
                 | Some channel \<Rightarrow> [ChannelSend (channel_id channel) ''Timeout reached''])\<rparr>)
       \<and> (prompt_answered st (message_id m) \<and> 0 < seconds \<and> int (length pre) \<le> seconds \<longrightarrow>
           pollingPromptData m c seconds cl (hd (pre @ st # rest)) (tl (pre @ st # rest)) =
             \<lparr>poll_i = 1 + int (length pre), poll_promise = Resolved True, poll_timer = None,
              poll_effects =
                map (\<lambda>k. MessageEdit (message_id m)
                            (c @ '' ('' @ string_of_int (seconds - k) @ ''s)'') False)
                  [1 .. int (length pre)]\<rparr>)"
proof (cases "0 < seconds \<and> int (length pre) \<le> seconds")
  case False
  then show ?thesis by auto
next
  case True
  define p where "p = polling_ticks m c seconds cl pre polling_init"
  have p: "p = polling_init
     \<lparr>poll_effects := poll_effects polling_init @
          map (\<lambda>k. MessageEdit (message_id m) (c @ '' ('' @ string_of_int (seconds - k) @ ''s)'') False)
            [poll_i polling_init .. poll_i polling_init + int (length pre) - 1],
       poll_i := poll_i polling_init + int (length pre)\<rparr>"
    unfolding p_def using assms True
    by (intro polling_ticks_countdown) (simp_all add: polling_init_def)
  then have timer: "poll_timer p = Some 1000"
    by (simp add: polling_init_def)
  have run: "pollingPromptData m c seconds cl (hd (pre @ st # rest)) (tl (pre @ st # rest)) =
      polling_ticks m c seconds cl rest (pollingPromptData_waiting m c seconds cl st p)"
    unfolding p_def using timer [unfolded p_def] by (rule pollingPromptData_split)
  show ?thesis
  proof (cases "prompt_answered st (message_id m)")
    case answered: True
    then have "pollingPromptData_waiting m c seconds cl st p =
        p\<lparr>poll_promise := resolve True (poll_promise p), poll_timer := None\<rparr>"
      by (rule waiting_answered)
    then show ?thesis
      using answered by (simp add: run polling_ticks_stopped p polling_init_def)
  next
    case unanswered: False
    show ?thesis
    proof (cases "int (length pre) = seconds")
      case deadline: True
      then have "seconds < poll_i p" by (simp add: p polling_init_def)
      with unanswered True
      have "pollingPromptData_waiting m c seconds cl st p =
         p\<lparr>poll_effects := poll_effects p @
              MessageEdit (message_id m) c True #
              (case cl (msg_channelId m) of
                 None \<Rightarrow> []
               | Some channel \<Rightarrow> [ChannelSend (channel_id channel) ''Timeout reached'']),
           poll_promise := resolve True (poll_promise p), poll_timer := None\<rparr>"
        by (intro waiting_deadline) simp_all
      then show ?thesis
        using unanswered deadline
        by (simp add: run polling_ticks_stopped p polling_init_def)
    next
      case False
      with unanswered show ?thesis by simp
    qed
  qed
qed

theorem pollingPromptData_last_tick_witness:
  "list_all (\<lambda>st. \<not> prompt_answered st (message_id example_message))
     [example_state, example_state, example_state]
   \<and> list_all (\<lambda>st. \<not> prompt_answered st (message_id example_message)) [example_state]
   \<and> \<not> prompt_answered example_state (message_id example_message)
   \<and> prompt_answered answered_state (message_id example_message)
   \<and> pollingPromptData example_message ''Pick'' 3 example_client example_state
        [example_state, example_state, example_state, answered_state] =
       \<lparr>poll_i = 4, poll_promise = Resolved True, poll_timer = None,
        poll_effects =
          [MessageEdit ''m1'' ''Pick (2s)'' False, MessageEdit ''m1'' ''Pick (1s)'' False,
           MessageEdit ''m1'' ''Pick (0s)'' False, MessageEdit ''m1'' ''Pick'' True,
           ChannelSend ''c1'' ''Timeout reached'']\<rparr>
   \<and> pollingPromptData example_message ''Pick'' 3 example_client example_state
        [answered_state, example_state] =
       \<lparr>poll_i = 2, poll_promise = Resolved True, poll_timer = None,
        poll_effects = [MessageEdit ''m1'' ''Pick (2s)'' False]\<rparr>"
proof -
  have h: "list_all (\<lambda>st. \<not> prompt_answered st (message_id example_message))
     [example_state, example_state, example_state]"
    by (simp add: prompt_answered_def example_state_def example_message_def truthy_def)
  have h': "list_all (\<lambda>st. \<not> prompt_answered st (message_id example_message)) [example_state]"
    by (simp add: prompt_answered_def example_state_def example_message_def truthy_def)
  have u: "\<not> prompt_answered example_state (message_id example_message)"
    "prompt_answered answered_state (message_id example_message)"
    by (simp_all add: prompt_answered_def example_state_def answered_state_def
        example_message_def truthy_def)
  have r: "[1 .. 3 :: int] = [1, 2, 3]" "[1 .. 1 :: int] = [1]"
    by code_simp+
  show ?thesis
    using h h' u
      pollingPromptData_last_tick [OF h, of example_state 3 "''Pick''" example_client
        "[answered_state]"]
      pollingPromptData_last_tick [OF h', of answered_state 3 "''Pick''" example_client
        "[example_state]"]
    by (simp add: r example_message_def example_client_def string_of_int_def digits_of.simps)
qed

text \<open>
  The claim C4 as stated fails when the value is set: with \<open>seconds = 3\<close> and an answer
  present at the third tick, the loop resolves and its last edit is the countdown
  \<open>(1s)\<close>.
\<close>

theorem pollingPromptData_answered_counterexample:
  "pollingPromptData example_message ''Pick'' 3 example_client example_state
     [example_state, answered_state] =
   \<lparr>poll_i = 3, poll_promise = Resolved True, poll_timer = None,
    poll_effects =
      [MessageEdit ''m1'' ''Pick (2s)'' False, MessageEdit ''m1'' ''Pick (1s)'' False]\<rparr>"
  by (simp add: pollingPromptData_def pollingPromptData_waiting_def prompt_answered_def
      example_state_def answered_state_def example_message_def truthy_def string_of_int_def
      digits_of.simps)

text \<open>
  C5. With \<open>seconds = 0\<close>: as long as every tick finds no answer the promise stays pending,
  the timer of 1000 ms stays armed and the message is never edited; at the first tick
  that finds an answer the promise resolves \<open>true\<close>, still without any edit. An answer is
  a value that JavaScript takes as true, here a non-empty string.
\<close>

theorem pollingPromptData_no_deadline:
  assumes "list_all (\<lambda>st. \<not> prompt_answered st (message_id m)) (st0 # sts)"
    and "list_all (\<lambda>st. \<not> prompt_answered st (message_id m)) pre"
    and "prompt_answered st (message_id m)"
  shows "pollingPromptData m c 0 cl st0 sts =
           \<lparr>poll_i = 2 + int (length sts), poll_promise = Pending, poll_timer = Some 1000,
            poll_effects = []\<rparr>
       \<and> pollingPromptData m c 0 cl (hd (pre @ st # rest)) (tl (pre @ st # rest)) =
           \<lparr>poll_i = 1 + int (length pre), poll_promise = Resolved True, poll_timer = None,
            poll_effects = []\<rparr>"
proof -
  have idle: "polling_ticks m c 0 cl xs polling_init =
      polling_init\<lparr>poll_i := poll_i polling_init + int (length xs)\<rparr>"
    if "list_all (\<lambda>st. \<not> prompt_answered st (message_id m)) xs" for xs
    using that by (intro polling_ticks_idle) (simp_all add: polling_init_def)
  have 1: "pollingPromptData m c 0 cl st0 sts =
           \<lparr>poll_i = 2 + int (length sts), poll_promise = Pending, poll_timer = Some 1000,
            poll_effects = []\<rparr>"
    unfolding pollingPromptData_as_ticks idle [OF assms(1)]
    by (simp add: polling_init_def)
  define p where "p = polling_ticks m c 0 cl pre polling_init"
  have p: "p = polling_init\<lparr>poll_i := 1 + int (length pre)\<rparr>"
    unfolding p_def by (simp add: idle [OF assms(2)])
  have "pollingPromptData m c 0 cl (hd (pre @ st # rest)) (tl (pre @ st # rest)) =
      polling_ticks m c 0 cl rest (pollingPromptData_waiting m c 0 cl st p)"
    unfolding p_def by (rule pollingPromptData_split) (simp add: idle [OF assms(2)])
  then have 2: "pollingPromptData m c 0 cl (hd (pre @ st # rest)) (tl (pre @ st # rest)) =
           \<lparr>poll_i = 1 + int (length pre), poll_promise = Resolved True, poll_timer = None,
            poll_effects = []\<rparr>"
    by (simp add: waiting_answered [OF assms(3)] polling_ticks_stopped p polling_init_def)
  from 1 2 show ?thesis by simp
qed

theorem pollingPromptData_no_deadline_witness:
  "list_all (\<lambda>st. \<not> prompt_answered st (message_id example_message))
     (example_state # [example_state, example_state])
   \<and> list_all (\<lambda>st. \<not> prompt_answered st (message_id example_message))
     [example_state, example_state]
   \<and> prompt_answered answered_state (message_id example_message)
   \<and> pollingPromptData example_message ''Pick'' 0 example_client example_state
        [example_state, example_state] =
       \<lparr>poll_i = 4, poll_promise = Pending, poll_timer = Some 1000, poll_effects = []\<rparr>
   \<and> pollingPromptData example_message ''Pick'' 0 example_client example_state
        [example_state, answered_state, example_state] =
       \<lparr>poll_i = 3, poll_promise = Resolved True, poll_timer = None, poll_effects = []\<rparr>"
proof -
  have h: "list_all (\<lambda>st. \<not> prompt_answered st (message_id example_message))
       (example_state # [example_state, example_state])"
    "list_all (\<lambda>st. \<not> prompt_answered st (message_id example_message))
       [example_state, example_state]"
    "prompt_answered answered_state (message_id example_message)"
    by (simp_all add: prompt_answered_def example_state_def answered_state_def
        example_message_def truthy_def)
  show ?thesis
    using h pollingPromptData_no_deadline [OF h, of "''Pick''" example_client "[example_state]"]
    by simp
qed

subsection \<open>The loading animation\<close>

lemma loading_ticks_stopped:
  "load_timer l = None \<Longrightarrow> loading_ticks pl pid txt sts l = l"
  by (cases sts) simp_all

lemma loading_ticks_append:
  "loading_ticks pl pid txt (xs @ ys) l =
     loading_ticks pl pid txt ys (loading_ticks pl pid txt xs l)"
  by (induction xs arbitrary: l) (simp_all add: loading_ticks_stopped)

lemma timer_present:
  assumes "truthy (placeholderMatching st pid)" and "load_i l \<le> 3"
  shows "placeholderLoading_timer pl pid txt st l =
     l\<lparr>load_i := (load_i l + 1) mod 4, load_timer := Some 800,
       load_effects := load_effects l @
         [MessageEdit (message_id pl) (txt @ dots ((load_i l + 1) mod 4)) False]\<rparr>"
proof (cases "load_i l = 3")
  case True
  then show ?thesis
    using assms(1)
    by (simp add: placeholderLoading_timer_def placeholderLoading_waiting_def Let_def)
next
  case False
  with assms(2) have "load_i l < 3" by simp
  then have "(load_i l + 1) mod 4 = load_i l + 1" "\<not> 3 < load_i l + 1" by simp_all
  then show ?thesis
    using assms(1)
    by (simp add: placeholderLoading_timer_def placeholderLoading_waiting_def Let_def)
qed

lemma timer_absent:
  assumes "\<not> truthy (placeholderMatching st pid)"
  shows "placeholderLoading_timer pl pid txt st l =
     l\<lparr>load_timer := None,
       load_effects := load_effects l @ [MessageEdit (message_id pl) txt False]\<rparr>"
  using assms by (simp add: placeholderLoading_timer_def)

lemma dot_edits_0: "dot_edits pl txt i 0 = []"
  by (simp add: dot_edits_def)

lemma dot_edits_Suc:
  "dot_edits pl txt i (Suc n) =
     MessageEdit (message_id pl) (txt @ dots ((i + 1) mod 4)) False #
     dot_edits pl txt ((i + 1) mod 4) n"
proof -
  have "[1 ..< Suc (Suc n)] = 1 # map Suc [1 ..< Suc n]"
    by (simp add: upt_conv_Cons map_Suc_upt del: upt_Suc)
  then show ?thesis
    by (simp add: dot_edits_def comp_def mod_add_left_eq add.assoc del: upt_Suc)
qed

lemma loading_ticks_present:
  assumes "list_all (\<lambda>st. truthy (placeholderMatching st pid)) sts"
    and "load_timer l = Some 800" and "load_i l \<le> 3"
  shows "loading_ticks pl pid txt sts l =
     l\<lparr>load_i := (load_i l + length sts) mod 4,
       load_effects := load_effects l @ dot_edits pl txt (load_i l) (length sts)\<rparr>"
  using assms
proof (induction sts arbitrary: l)
  case Nil
  then show ?case by (simp add: dot_edits_0)
next
  case (Cons st sts)
  define l' where "l' = placeholderLoading_timer pl pid txt st l"
  have t: "l' = l\<lparr>load_i := (load_i l + 1) mod 4, load_timer := Some 800,
       load_effects := load_effects l @
         [MessageEdit (message_id pl) (txt @ dots ((load_i l + 1) mod 4)) False]\<rparr>"
    unfolding l'_def using Cons.prems by (intro timer_present) simp_all
  have ih: "loading_ticks pl pid txt sts l' =
     l'\<lparr>load_i := (load_i l' + length sts) mod 4,
       load_effects := load_effects l' @ dot_edits pl txt (load_i l') (length sts)\<rparr>"
    using Cons.prems by (intro Cons.IH) (simp_all add: t)
  have same: "l\<lparr>load_timer := Some 800\<rparr> = l"
    using Cons.prems(2) by simp
  have "loading_ticks pl pid txt (st # sts) l = loading_ticks pl pid txt sts l'"
    using Cons.prems by (simp add: l'_def)
  also have "\<dots> = l\<lparr>load_i := (load_i l + length (st # sts)) mod 4,
       load_effects := load_effects l @ dot_edits pl txt (load_i l) (length (st # sts))\<rparr>"
    unfolding ih by (simp add: t same dot_edits_Suc mod_add_left_eq)
  finally show ?case .
qed

lemma placeholderLoading_first:
  assumes "message_id pl \<noteq> []"
  shows "snd (placeholderLoading_start pl pid txt st) =
     \<lparr>load_i = 1, load_timer = Some 800,
      load_effects = [MessageEdit (message_id pl) (txt @ dots 1) False]\<rparr>"
  using assms by (simp add: placeholderLoading_start_def placeholderLoading_waiting_def Let_def truthy_def)

text \<open>
  C6, as the code has it. While every tick finds the entry of
  \<open>placeholderMatchingId\<close> present, the \<open>k\<close>-th edit of the placeholder shows the base
  text followed by \<open>k mod 4\<close> dots: the counter runs 1, 2, 3, 0, so every fourth edit shows
  the base text alone. At the first tick that finds the entry absent the loop makes one
  more edit, to the base text, and arms no timer again.
\<close>

theorem placeholderLoading_dot_cycle:
  assumes "message_id pl \<noteq> []"
    and "list_all (\<lambda>s. truthy (placeholderMatching s pid)) pre"
  shows "placeholderLoading pl pid txt st pre =
           \<lparr>load_i = (1 + length pre) mod 4, load_timer = Some 800,
            load_effects =
              map (\<lambda>k. MessageEdit (message_id pl) (txt @ dots (k mod 4)) False)
                [1 ..< length pre + 2]\<rparr>
       \<and> (\<not> truthy (placeholderMatching s pid) \<longrightarrow>
            placeholderLoading pl pid txt st (pre @ s # rest) =
              \<lparr>load_i = (1 + length pre) mod 4, load_timer = None,
               load_effects =
                 map (\<lambda>k. MessageEdit (message_id pl) (txt @ dots (k mod 4)) False)
                   [1 ..< length pre + 2] @
                 [MessageEdit (message_id pl) txt False]\<rparr>)"
proof -
  define l0 where "l0 = snd (placeholderLoading_start pl pid txt st)"
  have l0: "l0 = \<lparr>load_i = 1, load_timer = Some 800,
      load_effects = [MessageEdit (message_id pl) (txt @ dots 1) False]\<rparr>"
    unfolding l0_def using assms(1) by (rule placeholderLoading_first)
  define l1 where "l1 = loading_ticks pl pid txt pre l0"
  have "l1 = l0\<lparr>load_i := (load_i l0 + length pre) mod 4,
       load_effects := load_effects l0 @
         map (\<lambda>k. MessageEdit (message_id pl) (txt @ dots ((load_i l0 + k) mod 4)) False)
           [1 ..< Suc (length pre)]\<rparr>"
    unfolding l1_def dot_edits_def [symmetric]
    using assms(2) by (intro loading_ticks_present) (simp_all add: l0)
  moreover have "[1 ..< length pre + 2] = 1 # map Suc [1 ..< Suc (length pre)]"
    by (simp add: upt_conv_Cons map_Suc_upt del: upt_Suc)
  ultimately have l1: "l1 = \<lparr>load_i = (1 + length pre) mod 4, load_timer = Some 800,
            load_effects =
              map (\<lambda>k. MessageEdit (message_id pl) (txt @ dots (k mod 4)) False)
                [1 ..< length pre + 2]\<rparr>"
    by (simp add: l0 comp_def del: upt_Suc)
  have a: "placeholderLoading pl pid txt st pre = l1"
    by (simp add: placeholderLoading_def l1_def l0_def)
  have b: "placeholderLoading pl pid txt st (pre @ s # rest) =
      l1\<lparr>load_timer := None,
         load_effects := load_effects l1 @ [MessageEdit (message_id pl) txt False]\<rparr>"
    if "\<not> truthy (placeholderMatching s pid)"
  proof -
    have "placeholderLoading pl pid txt st (pre @ s # rest) =
        loading_ticks pl pid txt (s # rest) l1"
      by (simp add: placeholderLoading_def l1_def l0_def loading_ticks_append)
    also have "\<dots> = loading_ticks pl pid txt rest (placeholderLoading_timer pl pid txt s l1)"
      by (simp add: l1)
    finally show ?thesis
      by (simp add: timer_absent [OF that] loading_ticks_stopped)
  qed
  show ?thesis
    using a b by (simp add: l1 del: upt_Suc)
qed

theorem placeholderLoading_dot_cycle_witness:
  "message_id example_message \<noteq> []
   \<and> list_all (\<lambda>s. truthy (placeholderMatching s ''p1''))
        [loading_state, loading_state, loading_state, loading_state]
   \<and> \<not> truthy (placeholderMatching example_state ''p1'')
   \<and> placeholderLoading example_message ''p1'' ''Loading'' example_state
        [loading_state, loading_state, loading_state, loading_state] =
       \<lparr>load_i = 1, load_timer = Some 800,
        load_effects =
          [MessageEdit ''m1'' ''Loading.'' False, MessageEdit ''m1'' ''Loading..'' False,
           MessageEdit ''m1'' ''Loading...'' False, MessageEdit ''m1'' ''Loading'' False,
           MessageEdit ''m1'' ''Loading.'' False]\<rparr>
   \<and> placeholderLoading example_message ''p1'' ''Loading'' example_state
        ([loading_state, loading_state, loading_state, loading_state] @
         example_state # [loading_state]) =
       \<lparr>load_i = 1, load_timer = None,
        load_effects =
          [MessageEdit ''m1'' ''Loading.'' False, MessageEdit ''m1'' ''Loading..'' False,
           MessageEdit ''m1'' ''Loading...'' False, MessageEdit ''m1'' ''Loading'' False,
           MessageEdit ''m1'' ''Loading.'' False, MessageEdit ''m1'' ''Loading'' False]\<rparr>"
proof -
  have h: "message_id example_message \<noteq> []"
    "list_all (\<lambda>s. truthy (placeholderMatching s ''p1''))
        [loading_state, loading_state, loading_state, loading_state]"
    by (simp_all add: example_message_def loading_state_def truthy_def)
  have a: "\<not> truthy (placeholderMatching example_state ''p1'')"
    by (simp add: example_state_def truthy_def)
  have e: "map (\<lambda>k. MessageEdit (message_id example_message) (''Loading'' @ dots (k mod 4)) False)
        [1 ..< length [loading_state, loading_state, loading_state, loading_state] + 2] =
      [MessageEdit ''m1'' ''Loading.'' False, MessageEdit ''m1'' ''Loading..'' False,
       MessageEdit ''m1'' ''Loading...'' False, MessageEdit ''m1'' ''Loading'' False,
       MessageEdit ''m1'' ''Loading.'' False]"
    by code_simp
  have i: "(1 + length [loading_state, loading_state, loading_state, loading_state]) mod 4 = 1"
    by simp
  show ?thesis
    using h a
      placeholderLoading_dot_cycle [OF h, of "''Loading''" example_state example_state
        "[loading_state]"]
    unfolding e i by (simp add: example_message_def)
qed

text \<open>
  The claim C6 as stated fails at the fourth edit: with the entry present throughout, the
  fourth edit of the animation shows no dot.
\<close>

theorem placeholderLoading_dots_counterexample:
  "placeholderLoading example_message ''p1'' ''Loading'' example_state
     [loading_state, loading_state, loading_state] =
   \<lparr>load_i = 0, load_timer = Some 800,
    load_effects =
      [MessageEdit ''m1'' ''Loading.'' False, MessageEdit ''m1'' ''Loading..'' False,
       MessageEdit ''m1'' ''Loading...'' False, MessageEdit ''m1'' ''Loading'' False]\<rparr>"
  by (simp add: placeholderLoading_def placeholderLoading_start_def placeholderLoading_timer_def
      placeholderLoading_waiting_def Let_def truthy_def dots_def example_message_def
      example_state_def loading_state_def)

subsection \<open>Who writes \<open>placeholderMatching\<close> and \<open>promptData\<close>\<close>

text \<open>
  C7, as the code has it. \<open>placeholderLoading\<close> itself writes the entry it later polls:
  its first statement stores the placeholder's id under \<open>placeholderMatchingId\<close>, and
  nothing else of the state changes. \<open>addLog\<close> and \<open>triggerWorkflow\<close>, the other helpers
  that write the state, leave \<open>placeholderMatching\<close> and \<open>promptData\<close> as they are.
\<close>

theorem placeholderMatching_written_at_start_only:
  "fst (placeholderLoading_start pl pid txt st) =
     st\<lparr>placeholderMatching := (placeholderMatching st)(pid \<mapsto> message_id pl)\<rparr>
   \<and> placeholderMatching (fst (addLog msg now cl st)) = placeholderMatching st
   \<and> promptData (fst (addLog msg now cl st)) = promptData st
   \<and> placeholderMatching (fst (triggerWorkflow w m p outcome st)) = placeholderMatching st
   \<and> promptData (fst (triggerWorkflow w m p outcome st)) = promptData st"
  by (simp add: placeholderLoading_start_def addLog_def triggerWorkflow_def Let_def
      split: http_outcome.splits option.splits)


theorem placeholderMatching_written_at_start_only_witness:
  "placeholderMatching
     (fst (placeholderLoading_start example_message ''p1'' ''Loading'' example_state)) ''p1''
     = Some ''m1''
   \<and> placeholderMatching
     (fst (placeholderLoading_start example_message ''p1'' ''Loading'' example_state)) ''p2''
     = None
   \<and> placeholderMatching (fst (addLog ''x'' ''t'' example_client loading_state)) ''p1''
     = Some ''m1''
   \<and> placeholderMatching
       (fst (triggerWorkflow ''hook1'' example_message ''p1'' Failed loading_state)) ''p1''
     = Some ''m1''"
  using placeholderMatching_written_at_start_only [of example_message "''p1''" "''Loading''"
      example_state "''x''" "''t''" example_client "''hook1''" example_message "''p1''" Failed]
    placeholderMatching_written_at_start_only [of example_message "''p1''" "''Loading''"
      loading_state "''x''" "''t''" example_client "''hook1''" example_message "''p1''" Failed]
  by (simp add: example_state_def example_message_def loading_state_def)

text \<open>
  The claim C7 as stated fails: a call of \<open>placeholderLoading\<close> on a state without the
  entry leaves the entry written.
\<close>

theorem placeholderLoading_writes_counterexample:
  "placeholderMatching example_state ''p1'' = None
   \<and> placeholderMatching
       (fst (placeholderLoading_start example_message ''p1'' ''Loading'' example_state)) ''p1''
     = Some ''m1''"
  by (simp add: placeholderLoading_start_def Let_def example_state_def example_message_def)

end
